theory Spec2Isabelle
  imports Complex_Main "HOL-Library.Char_ord" "HOL-Library.List_Lexorder"
begin

section \<open>Python values and exceptions\<close>

text \<open>
  The module \<open>sample_info/modules/visualizations.py\<close> is glue between a score array, a
  dataset and a plotting library. The embedding keeps the values the module inspects
  (lists, tensors, arrays, \<open>None\<close>), turns every \<open>raise\<close> and every failing index into an
  error value, and records the calls made on the plotting library instead of drawing.
\<close>

datatype error = ValueError | IndexError | TypeError | RuntimeError

text \<open>An n-dimensional array or tensor: its shape and its elements in row-major order.\<close>

type_synonym nd = "nat list \<times> real list"

datatype pyobj =
    PyNone
  | PyFloat real
  | PyStr string
  | PyList "pyobj list"
  | Ndarray nd
  | Tensor nd

fun is_tensor :: "pyobj \<Rightarrow> bool" where
  "is_tensor (Tensor a) = True"
| "is_tensor x = False"

fun is_ndarray :: "pyobj \<Rightarrow> bool" where
  "is_ndarray (Ndarray a) = True"
| "is_ndarray x = False"


text \<open>The array carried by a tensor or an array object (only applied to those).\<close>

fun nd_of :: "pyobj \<Rightarrow> nd" where
  "nd_of (Tensor a) = a"
| "nd_of (Ndarray a) = a"
| "nd_of x = ([], [])"

text \<open>\<open>a.flatten()\<close>: one dimension, the same elements in the same order.\<close>

definition flatten :: "nd \<Rightarrow> nd" where
  "flatten a = ([length (snd a)], snd a)"

text \<open>\<open>utils.to_numpy\<close> on a tensor: the same shape and elements, as an array.\<close>

definition to_numpy :: "nd \<Rightarrow> nd" where
  "to_numpy a = a"

text \<open>
  \<open>torch.stack\<close>: every element must be a tensor (\<open>TypeError\<close> otherwise) and all must have
  the shape of the first (\<open>RuntimeError\<close> otherwise, also for no tensors at all); the result
  has one more leading dimension.
\<close>

definition torch_stack :: "pyobj list \<Rightarrow> error + nd" where
  "torch_stack ts =
     (if \<not> list_all is_tensor ts then Inl TypeError
      else if ts = [] then Inl RuntimeError
      else if \<not> list_all (\<lambda>t. fst (nd_of t) = fst (nd_of (hd ts))) ts then Inl RuntimeError
      else Inr (length ts # fst (nd_of (hd ts)), concat (map (\<lambda>t. snd (nd_of t)) ts)))"

text \<open>
  The condition of the first \<open>if\<close> of \<open>convert_scores_to_numpy\<close>:
  \<open>isinstance(scores, list) and isinstance(scores[0], torch.Tensor)\<close>. The conjunction is
  evaluated left to right, so \<open>scores[0]\<close> is read as soon as \<open>scores\<close> is a list.
\<close>

fun is_list_of_tensors :: "pyobj \<Rightarrow> error + bool" where
  "is_list_of_tensors (PyList []) = Inl IndexError"
| "is_list_of_tensors (PyList (x # xs)) = Inr (is_tensor x)"
| "is_list_of_tensors x = Inr False"

definition convert_scores_to_numpy :: "pyobj \<Rightarrow> error + nd" where
  "convert_scores_to_numpy scores =
     (case is_list_of_tensors scores of
        Inl e \<Rightarrow> Inl e
      | Inr True \<Rightarrow>
          (case scores of
             PyList ts \<Rightarrow>
               (case torch_stack ts of
                  Inl e \<Rightarrow> Inl e
                | Inr t \<Rightarrow> Inr (to_numpy (flatten t)))
           | _ \<Rightarrow> Inl TypeError)
      | Inr False \<Rightarrow>
          if is_tensor scores then Inr (to_numpy (flatten (nd_of scores)))
          else if is_ndarray scores then Inr (flatten (nd_of scores))
          else Inl ValueError)"

section \<open>Python and numpy indexing\<close>

text \<open>\<open>xs[i]\<close> with a non-negative index: \<open>IndexError\<close> out of range.\<close>

definition nth_err :: "'a list \<Rightarrow> nat \<Rightarrow> error + 'a" where
  "nth_err xs i = (if i < length xs then Inr (xs ! i) else Inl IndexError)"

text \<open>\<open>xs[i]\<close> with any integer: a negative index counts from the end.\<close>

definition py_index :: "'a list \<Rightarrow> int \<Rightarrow> error + 'a" where
  "py_index xs i =
     (if 0 \<le> i \<and> i < int (length xs) then Inr (xs ! nat i)
      else if i < 0 \<and> - int (length xs) \<le> i then Inr (xs ! nat (int (length xs) + i))
      else Inl IndexError)"

text \<open>
  The slices \<open>xs[:stop]\<close> and \<open>xs[start:]\<close>: a negative bound counts from the end, and a
  bound outside the list is clipped (\<open>nat\<close> of a negative integer is 0, \<open>take\<close> and \<open>drop\<close>
  stop at the end of the list).
\<close>

definition slice_to :: "int \<Rightarrow> 'a list \<Rightarrow> 'a list" where
  "slice_to stop xs = take (nat (if stop < 0 then int (length xs) + stop else stop)) xs"

definition slice_from :: "int \<Rightarrow> 'a list \<Rightarrow> 'a list" where
  "slice_from start xs = drop (nat (if start < 0 then int (length xs) + start else start)) xs"

text \<open>
  Boolean-mask indexing \<open>a[mask]\<close> on a one-dimensional array: the elements at the
  positions where the mask holds, \<open>IndexError\<close> when the mask has another length.
\<close>

definition mask_select :: "'a list \<Rightarrow> bool list \<Rightarrow> error + 'a list" where
  "mask_select xs bs =
     (if length bs \<noteq> length xs then Inl IndexError
      else Inr (map fst (filter snd (zip xs bs))))"

text \<open>\<open>np.array(groups) == g\<close>: the elementwise comparison.\<close>

definition eq_mask :: "'a list \<Rightarrow> 'a \<Rightarrow> bool list" where
  "eq_mask groups g = map (\<lambda>h. h = g) groups"

text \<open>\<open>sorted(list(set(groups)))\<close>: the distinct values in ascending order.\<close>

definition sorted_set :: "('a::linorder) list \<Rightarrow> 'a list" where
  "sorted_set groups = sort (remdups groups)"

text \<open>
  \<open>np.argsort\<close>: the indices of the array ordered by ascending value. Indices of equal
  values are kept in index order here; numpy's default sort leaves their order open.
\<close>

definition argsort :: "real list \<Rightarrow> nat list" where
  "argsort xs = sort_key (\<lambda>i. xs ! i) [0..<length xs]"



text \<open>\<open>str\<close> of an integer: its decimal digits, with a minus sign when negative.\<close>

fun str_nat :: "nat \<Rightarrow> string" where
  "str_nat n = (if n < 10 then [''0123456789'' ! n]
                else str_nat (n div 10) @ [''0123456789'' ! (n mod 10)])"

declare str_nat.simps [simp del]

definition str_int :: "int \<Rightarrow> string" where
  "str_int i = (if i < 0 then CHR ''-'' # str_nat (nat (- i)) else str_nat (nat i))"

text \<open>The results of a list comprehension whose body may raise: the first error wins.\<close>

fun collect :: "(error + 'a) list \<Rightarrow> error + 'a list" where
  "collect [] = Inr []"
| "collect (Inl e # rs) = Inl e"
| "collect (Inr v # rs) = (case collect rs of Inl e \<Rightarrow> Inl e | Inr vs \<Rightarrow> Inr (v # vs))"

section \<open>The plotting library as recorded calls\<close>

text \<open>
  A figure is what the module asked the plotting library to draw: its axes in creation
  order, each with the calls made on it in call order. The library's own computations
  (bar heights, density values, pixel data) are not evaluated; a call is recorded with the
  arguments the module passed.
\<close>

text \<open>The \<open>bins\<close> argument of \<open>ax.hist\<close>: a number of bins or an array of bin edges.\<close>

datatype bins = Bin_count int | Bin_edges "real list"

text \<open>
  \<open>np.exp(kde.score_samples(xs))\<close> for \<open>kde = KernelDensity(kernel, bandwidth).fit(sample)\<close>:
  the kernel, the bandwidth, the fitted sample and the grid \<open>xs\<close>.
\<close>

datatype curve = Kernel_density string real "real list" "real list"

datatype 'im ax_call =
    Hist "real list" bins real string bool
  | Plot "real list" curve string
  | Ticklabel_format string
  | Set_xlabel string
  | Set_ylabel string
  | Legend
  | Imshow 'im
  | Set_axis_off

text \<open>Where an axes sits: the whole figure, or the grid cells \<open>gs[r0:r1, c0:c1]\<close>.\<close>

datatype place = Whole | Grid nat nat nat nat

record 'im axes =
  ax_place :: place
  ax_calls :: "'im ax_call list"

record 'im figure =
  figsize :: "nat \<times> nat"
  constrained_layout :: bool
  fig_axes :: "'im axes list"
  fig_texts :: "string list"
  tight_layout :: bool
  saved_as :: "string option"


section \<open>plot_histogram_of_informativeness\<close>






section \<open>plot_least_or_most_informative_examples\<close>

text \<open>Lines 93 to 97: the indices handed to the display helper.\<close>

definition select_examples :: "real list \<Rightarrow> bool \<Rightarrow> int \<Rightarrow> nat list" where
  "select_examples scores least_informative n_examples =
     (let order = argsort scores
      in if least_informative then slice_to n_examples order
         else slice_from (- n_examples) order)"

text \<open>
  \<open>plot_examples_from_dataset\<close> belongs to another package; it is a parameter of the model,
  called with \<open>data\<close>, \<open>indices\<close>, \<open>n_rows\<close>, \<open>n_cols\<close> and \<open>savename\<close>.
\<close>

definition examples_of_scores ::
  "('d \<Rightarrow> nat list \<Rightarrow> int \<Rightarrow> int \<Rightarrow> string option \<Rightarrow> error + ('fig \<times> 'ax)) \<Rightarrow>
   'd \<Rightarrow> real list \<Rightarrow> string option \<Rightarrow> bool \<Rightarrow> int \<Rightarrow> error + ('fig \<times> 'ax)" where
  "examples_of_scores plot_examples_from_dataset data scores save_name least_informative
       n_examples =
     (case plot_examples_from_dataset data
             (select_examples scores least_informative n_examples) 1 n_examples save_name of
        Inl e \<Rightarrow> Inl e
      | Inr (fig, ax) \<Rightarrow> Inr (fig, ax))"

definition plot_least_or_most_informative_examples ::
  "('d \<Rightarrow> nat list \<Rightarrow> int \<Rightarrow> int \<Rightarrow> string option \<Rightarrow> error + ('fig \<times> 'ax)) \<Rightarrow>
   'd \<Rightarrow> pyobj \<Rightarrow> string option \<Rightarrow> bool \<Rightarrow> int \<Rightarrow> error + ('fig \<times> 'ax)" where
  "plot_least_or_most_informative_examples plot_examples_from_dataset data
       informativeness_scores save_name least_informative n_examples =
     (case convert_scores_to_numpy informativeness_scores of
        Inl e \<Rightarrow> Inl e
      | Inr a \<Rightarrow>
          examples_of_scores plot_examples_from_dataset data (snd a) save_name
            least_informative n_examples)"

section \<open>plot_summary_of_informativeness\<close>

text \<open>
  Lines 126 to 131: one histogram per class on the left axes. The label is \<open>str(y)\<close>, or
  \<open>label_names[y]\<close> when names are given.
\<close>

fun class_hists ::
  "real list \<Rightarrow> int list \<Rightarrow> string list option \<Rightarrow> int list \<Rightarrow> error + 'im ax_call list" where
  "class_hists scores ys label_names [] = Inr []"
| "class_hists scores ys label_names (y # rest) =
     (case (case label_names of None \<Rightarrow> Inr (str_int y) | Some names \<Rightarrow> py_index names y) of
        Inl e \<Rightarrow> Inl e
      | Inr label \<Rightarrow>
          (case mask_select scores (eq_mask ys y) of
             Inl e \<Rightarrow> Inl e
           | Inr sel \<Rightarrow>
               (case class_hists scores ys label_names rest of
                  Inl e \<Rightarrow> Inl e
                | Inr calls \<Rightarrow> Inr (Hist sel (Bin_count 30) (3/5) label False # calls))))"

text \<open>
  One pass of the loops of lines 145 to 157 and 159 to 171: the axes at
  \<open>gs[r0:r1, 3 + i]\<close> showing the image of \<open>data[chosen[i]]\<close>. The image pipeline
  (\<open>revert_normalization\<close>, \<open>to_numpy\<close>, \<open>get_image\<close>) is the parameter \<open>image_of\<close>.
\<close>

definition example_axes ::
  "(('x \<times> 'y) list \<Rightarrow> 'x \<Rightarrow> 'im) \<Rightarrow> ('x \<times> 'y) list \<Rightarrow> nat list \<Rightarrow> nat \<Rightarrow> nat \<Rightarrow> nat \<Rightarrow>
   error + 'im axes" where
  "example_axes image_of data chosen r0 r1 i =
     (case nth_err chosen i of
        Inl e \<Rightarrow> Inl e
      | Inr k \<Rightarrow>
          (case nth_err data k of
             Inl e \<Rightarrow> Inl e
           | Inr (x, y) \<Rightarrow>
               Inr \<lparr>ax_place = Grid r0 r1 (3 + i) (4 + i),
                    ax_calls = [Imshow (image_of data x), Set_axis_off]\<rparr>))"

text \<open>
  \<open>label_item\<close> stands for the tensor operations of lines 119 to 122 on one label:
  \<open>torch.tensor(y)\<close>, \<open>torch.argmax\<close> when the labels are one-hot, and \<open>.item()\<close>.
  Lines 115 to 176, on the converted scores:
\<close>

definition summary_of_scores ::
  "(bool \<Rightarrow> 'y \<Rightarrow> error + int) \<Rightarrow> (('x \<times> 'y) list \<Rightarrow> 'x \<Rightarrow> 'im) \<Rightarrow> ('x \<times> 'y) list \<Rightarrow>
   real list \<Rightarrow> string list option \<Rightarrow> string option \<Rightarrow> bool \<Rightarrow>
   error + ('im figure \<times> 'im axes option)" where
  "summary_of_scores label_item image_of data scores label_names save_name is_label_one_hot =
     (case collect (map (\<lambda>(x, y). label_item is_label_one_hot y) data) of
        Inl e \<Rightarrow> Inl e
      | Inr ys \<Rightarrow>
          (case class_hists scores ys label_names (sorted_set ys) of
             Inl e \<Rightarrow> Inl e
           | Inr drawn \<Rightarrow>
               (let ax_left = \<lparr>ax_place = Grid 1 22 0 3,
                               ax_calls = drawn
                                 @ [Legend, Ticklabel_format ''x'',
                                    Set_xlabel ''Informativeness of an example'',
                                    Set_ylabel ''Count'', Legend]\<rparr>;
                    order = argsort scores;
                    least_informative = slice_to 10 order;
                    most_informative = slice_from (- 10) order
                in case collect (map (example_axes image_of data least_informative 1 11)
                                   [0..<10]) of
                     Inl e \<Rightarrow> Inl e
                   | Inr top_row \<Rightarrow>
                       (case collect (map (example_axes image_of data most_informative 12 22)
                                        [0..<10]) of
                          Inl e \<Rightarrow> Inl e
                        | Inr bottom_row \<Rightarrow>
                            Inr (\<lparr>figsize = (24, 5), constrained_layout = True,
                                  fig_axes = ax_left # top_row @ bottom_row,
                                  fig_texts = [''A'', ''B'', ''C''],
                                  tight_layout = False,
                                  saved_as = save_name\<rparr>, None)))))"

definition plot_summary_of_informativeness ::
  "(bool \<Rightarrow> 'y \<Rightarrow> error + int) \<Rightarrow> (('x \<times> 'y) list \<Rightarrow> 'x \<Rightarrow> 'im) \<Rightarrow> ('x \<times> 'y) list \<Rightarrow> pyobj \<Rightarrow>
   string list option \<Rightarrow> string option \<Rightarrow> bool \<Rightarrow> error + ('im figure \<times> 'im axes option)" where
  "plot_summary_of_informativeness label_item image_of data informativeness_scores
       label_names save_name is_label_one_hot =
     (case convert_scores_to_numpy informativeness_scores of
        Inl e \<Rightarrow> Inl e
      | Inr a \<Rightarrow>
          summary_of_scores label_item image_of data (snd a) label_names save_name
            is_label_one_hot)"

section \<open>The score buffers in a store\<close>









section \<open>Reading a figure\<close>





text \<open>The scores whose group label is \<open>g\<close>, in array order.\<close>

definition scores_of_group :: "real list \<Rightarrow> 'g list \<Rightarrow> 'g \<Rightarrow> real list" where
  "scores_of_group scores groups g = map fst (filter (\<lambda>(x, h). h = g) (zip scores groups))"






section \<open>Stand-ins for the other packages\<close>

text \<open>
  Concrete values for the parameters of the model, used where a statement is checked on
  an example: a display helper that returns the indices and the number of columns it
  was given, numpy's bin edges for a number of bins, labels that are class indices, and
  images shown as they are stored.
\<close>

definition record_examples ::
  "'d \<Rightarrow> nat list \<Rightarrow> int \<Rightarrow> int \<Rightarrow> string option \<Rightarrow> error + (nat list \<times> int)" where
  "record_examples data indices n_rows n_cols savename = Inr (indices, n_cols)"


definition class_index :: "bool \<Rightarrow> int \<Rightarrow> error + int" where
  "class_index is_label_one_hot y = Inr y"

definition stored_image :: "('x \<times> 'y) list \<Rightarrow> 'x \<Rightarrow> 'x" where
  "stored_image data x = x"

section \<open>convert_scores_to_numpy\<close>










text \<open>
  C10. On the empty list the condition of the first \<open>if\<close> already fails with
  \<open>IndexError\<close>, reading \<open>scores[0]\<close>; the call ends with that error and never reaches the
  \<open>raise ValueError\<close> of the last line.
\<close>

theorem convert_empty_list_index_error:
  "is_list_of_tensors (PyList []) = Inl IndexError
   \<and> convert_scores_to_numpy (PyList []) = Inl IndexError"
  by (simp add: convert_scores_to_numpy_def)

section \<open>Ranking by score\<close>

lemma argsort_set: "set (argsort xs) = {0..<length xs}"
  by (simp add: argsort_def)

lemma argsort_length: "length (argsort xs) = length xs"
  by (simp add: argsort_def)

lemma argsort_distinct: "distinct (argsort xs)"
  by (simp add: argsort_def)

lemma argsort_sorted: "sorted (map (\<lambda>i. xs ! i) (argsort xs))"
  by (simp add: argsort_def)

lemma sorted_take_le_drop:
  assumes "sorted (map f os)" "i \<in> set (take k os)" "j \<in> set (drop k os)"
  shows "f i \<le> f j"
proof -
  have "sorted (map f (take k os) @ map f (drop k os))"
    using assms(1) by (simp flip: map_append)
  then show ?thesis using assms(2,3) by (auto simp: sorted_append)
qed

lemma outside_take_in_drop:
  assumes "j \<in> set os" "j \<notin> set (take k os)"
  shows "j \<in> set (drop k os)"
proof -
  have "set os = set (take k os) \<union> set (drop k os)"
    by (metis append_take_drop_id set_append)
  then show ?thesis using assms by blast
qed

lemma outside_drop_in_take:
  assumes "j \<in> set os" "j \<notin> set (drop k os)"
  shows "j \<in> set (take k os)"
proof -
  have "set os = set (take k os) \<union> set (drop k os)"
    by (metis append_take_drop_id set_append)
  then show ?thesis using assms by blast
qed

lemma select_least: "0 \<le> n \<Longrightarrow> select_examples xs True n = take (nat n) (argsort xs)"
  by (simp add: select_examples_def slice_to_def)

lemma select_most:
  "1 \<le> n \<Longrightarrow> select_examples xs False n = drop (length xs - nat n) (argsort xs)"
  by (simp add: select_examples_def slice_from_def argsort_length nat_diff_distrib')

lemma select_least_props:
  assumes "0 \<le> n"
  shows "length (select_examples xs True n) = min (nat n) (length xs)"
    and "distinct (select_examples xs True n)"
    and "set (select_examples xs True n) \<subseteq> {0..<length xs}"
    and "sorted (map ((!) xs) (select_examples xs True n))"
    and "i \<in> set (select_examples xs True n) \<Longrightarrow> j < length xs \<Longrightarrow>
         j \<notin> set (select_examples xs True n) \<Longrightarrow> xs ! i \<le> xs ! j"
proof -
  let ?os = "argsort xs" and ?k = "nat n"
  have sel: "select_examples xs True n = take ?k ?os" using assms by (rule select_least)
  show "length (select_examples xs True n) = min (nat n) (length xs)"
    by (simp add: sel argsort_length min.commute)
  show "distinct (select_examples xs True n)"
    by (simp add: sel argsort_distinct)
  show "set (select_examples xs True n) \<subseteq> {0..<length xs}"
    unfolding sel using set_take_subset [of ?k ?os] by (simp add: argsort_set)
  show "sorted (map ((!) xs) (select_examples xs True n))"
    unfolding sel using argsort_sorted [of xs] by (simp flip: take_map)
  show "xs ! i \<le> xs ! j"
    if "i \<in> set (select_examples xs True n)" "j < length xs"
       "j \<notin> set (select_examples xs True n)"
  proof -
    have "j \<in> set ?os" using that(2) by (simp add: argsort_set)
    then have "j \<in> set (drop ?k ?os)"
      using that(3) unfolding sel by (rule outside_take_in_drop)
    then show ?thesis
      using sorted_take_le_drop [OF argsort_sorted, of i ?k xs j] that(1) unfolding sel by simp
  qed
qed

lemma select_most_props:
  assumes "1 \<le> n"
  shows "length (select_examples xs False n) = min (nat n) (length xs)"
    and "distinct (select_examples xs False n)"
    and "set (select_examples xs False n) \<subseteq> {0..<length xs}"
    and "sorted (map ((!) xs) (select_examples xs False n))"
    and "i \<in> set (select_examples xs False n) \<Longrightarrow> j < length xs \<Longrightarrow>
         j \<notin> set (select_examples xs False n) \<Longrightarrow> xs ! j \<le> xs ! i"
proof -
  let ?os = "argsort xs" and ?k = "length xs - nat n"
  have sel: "select_examples xs False n = drop ?k ?os" using assms by (rule select_most)
  show "length (select_examples xs False n) = min (nat n) (length xs)"
    by (simp add: sel argsort_length)
  show "distinct (select_examples xs False n)"
    by (simp add: sel argsort_distinct)
  show "set (select_examples xs False n) \<subseteq> {0..<length xs}"
    unfolding sel using set_drop_subset [of ?k ?os] by (simp add: argsort_set)
  show "sorted (map ((!) xs) (select_examples xs False n))"
    unfolding sel using argsort_sorted [of xs] by (simp flip: drop_map)
  show "xs ! j \<le> xs ! i"
    if "i \<in> set (select_examples xs False n)" "j < length xs"
       "j \<notin> set (select_examples xs False n)"
  proof -
    have "j \<in> set ?os" using that(2) by (simp add: argsort_set)
    then have "j \<in> set (take ?k ?os)"
      using that(3) unfolding sel by (rule outside_drop_in_take)
    then show ?thesis
      using sorted_take_le_drop [OF argsort_sorted, of j ?k xs i] that(1) unfolding sel by simp
  qed
qed

lemma examples_call:
  "examples_of_scores pe data xs save least n = pe data (select_examples xs least n) 1 n save"
  by (simp add: examples_of_scores_def split: sum.splits)


lemma collect_map_Inr:
  "collect (map f js) = Inr ys \<Longrightarrow>
   length ys = length js \<and> (\<forall>i<length js. f (js ! i) = Inr (ys ! i))"
proof (induction js arbitrary: ys)
  case Nil
  then show ?case by simp
next
  case (Cons j js)
  from Cons.prems obtain v vs where v: "f j = Inr v" and vs: "collect (map f js) = Inr vs"
    and ys: "ys = v # vs"
    by (cases "f j") (auto split: sum.splits)
  from Cons.IH [OF vs] have "length vs = length js" "\<forall>i<length js. f (js ! i) = Inr (vs ! i)"
    by simp_all
  then show ?case using v ys by (auto simp: nth_Cons split: nat.splits)
qed

lemma example_axes_Inr:
  assumes "example_axes img data chosen r0 r1 i = Inr ax"
  shows "i < length chosen" and "chosen ! i < length data"
    and "ax_calls ax = [Imshow (img data (fst (data ! (chosen ! i)))), Set_axis_off]"
  using assms
  by (auto simp: example_axes_def nth_err_def split: if_splits prod.splits)

lemma example_row:
  assumes "collect (map (example_axes img data chosen r0 r1) [0..<10]) = Inr row"
    and "length chosen \<le> 10"
  shows "length chosen = 10" and "length row = 10"
    and "map ax_calls row = map (\<lambda>k. [Imshow (img data (fst (data ! k))), Set_axis_off]) chosen"
proof -
  from collect_map_Inr [OF assms(1)]
  have len: "length row = 10"
    and each: "\<forall>i<10. example_axes img data chosen r0 r1 ([0..<10] ! i) = Inr (row ! i)"
    by simp_all
  have at: "example_axes img data chosen r0 r1 i = Inr (row ! i)" if "i < 10" for i
    using each that by simp
  have "9 < length chosen" using example_axes_Inr(1) [OF at [of 9]] by simp
  then show c: "length chosen = 10" using assms(2) by simp
  show "length row = 10" by (rule len)
  show "map ax_calls row = map (\<lambda>k. [Imshow (img data (fst (data ! k))), Set_axis_off]) chosen"
  proof (rule nth_equalityI)
    show "length (map ax_calls row) =
          length (map (\<lambda>k. [Imshow (img data (fst (data ! k))), Set_axis_off]) chosen)"
      using len c by simp
  next
    fix i assume "i < length (map ax_calls row)"
    then have i: "i < 10" using len by simp
    show "map ax_calls row ! i =
          map (\<lambda>k. [Imshow (img data (fst (data ! k))), Set_axis_off]) chosen ! i"
      using example_axes_Inr(3) [OF at [OF i]] i len c by simp
  qed
qed

lemma summary_Inr:
  assumes "summary_of_scores li img data xs names save oh = Inr (fig, r)"
  obtains left top bottom where
    "fig_axes fig = left # top @ bottom" "r = None"
    "collect (map (example_axes img data (slice_to 10 (argsort xs)) 1 11) [0..<10]) = Inr top"
    "collect (map (example_axes img data (slice_from (- 10) (argsort xs)) 12 22) [0..<10]) = Inr bottom"
  using assms
  by (auto simp: summary_of_scores_def Let_def split: sum.splits)

lemma summary_rows:
  assumes "summary_of_scores li img data xs names save oh = Inr (fig, r)"
  shows "10 \<le> length xs"
    and "length (select_examples xs True 10) = 10"
    and "length (select_examples xs False 10) = 10"
    and "map ax_calls (take 10 (drop 1 (fig_axes fig))) =
         map (\<lambda>k. [Imshow (img data (fst (data ! k))), Set_axis_off]) (select_examples xs True 10)"
    and "map ax_calls (drop 11 (fig_axes fig)) =
         map (\<lambda>k. [Imshow (img data (fst (data ! k))), Set_axis_off]) (select_examples xs False 10)"
proof -
  from assms obtain left top bottom where
    ax: "fig_axes fig = left # top @ bottom"
    and t: "collect (map (example_axes img data (slice_to 10 (argsort xs)) 1 11) [0..<10]) = Inr top"
    and b: "collect (map (example_axes img data (slice_from (- 10) (argsort xs)) 12 22) [0..<10]) = Inr bottom"
    by (rule summary_Inr)
  have l: "select_examples xs True 10 = slice_to 10 (argsort xs)"
    and m: "select_examples xs False 10 = slice_from (- 10) (argsort xs)"
    by (simp_all add: select_examples_def)
  have ll: "length (slice_to 10 (argsort xs)) \<le> 10"
    and lm: "length (slice_from (- 10) (argsort xs)) \<le> 10"
    by (simp_all add: slice_to_def slice_from_def argsort_length)
  note T = example_row [OF t ll] and B = example_row [OF b lm]
  show "length (select_examples xs True 10) = 10" using T(1) l by simp
  then show "10 \<le> length xs" by (simp add: l slice_to_def argsort_length)
  show "length (select_examples xs False 10) = 10" using B(1) m by simp
  show "map ax_calls (take 10 (drop 1 (fig_axes fig))) =
         map (\<lambda>k. [Imshow (img data (fst (data ! k))), Set_axis_off]) (select_examples xs True 10)"
    using T(2,3) by (simp add: ax l)
  show "map ax_calls (drop 11 (fig_axes fig)) =
         map (\<lambda>k. [Imshow (img data (fst (data ! k))), Set_axis_off]) (select_examples xs False 10)"
    using T(2) B(3) by (simp add: ax m)
qed


lemma plot_examples_call:
  "convert_scores_to_numpy s = Inr a \<Longrightarrow>
   plot_least_or_most_informative_examples pe data s save least n =
     pe data (select_examples (snd a) least n) 1 n save"
  by (simp add: plot_least_or_most_informative_examples_def examples_call)

text \<open>
  C1, as the code has it. For scores that convert to an array of \<open>N\<close> elements, the display
  helper is called with the indices \<open>select_examples\<close> yields. For \<open>n_examples \<ge> 0\<close> on the
  least-informative side and \<open>n_examples \<ge> 1\<close> on the most-informative side these are
  \<open>min n_examples N\<close> distinct indices in ascending order of score, and no index left out
  has a lower (least informative) or higher (most informative) score than a chosen one.
  When \<open>plot_summary_of_informativeness\<close> returns, there are at least 10 scores, and its
  two rows of images show the samples chosen the same way with \<open>n_examples = 10\<close>.
\<close>

theorem examples_ranked_by_score:
  assumes conv: "convert_scores_to_numpy s = Inr a"
    and n: "(least \<and> 0 \<le> n) \<or> (\<not> least \<and> 1 \<le> n)"
  shows
    "plot_least_or_most_informative_examples pe data s save least n =
       pe data (select_examples (snd a) least n) 1 n save
     \<and> length (select_examples (snd a) least n) = min (nat n) (length (snd a))
     \<and> distinct (select_examples (snd a) least n)
     \<and> set (select_examples (snd a) least n) \<subseteq> {0..<length (snd a)}
     \<and> sorted (map ((!) (snd a)) (select_examples (snd a) least n))
     \<and> (\<forall>i \<in> set (select_examples (snd a) least n). \<forall>j < length (snd a).
           j \<notin> set (select_examples (snd a) least n) \<longrightarrow>
           (if least then snd a ! i \<le> snd a ! j else snd a ! j \<le> snd a ! i))
     \<and> (plot_summary_of_informativeness li img ds s names sv oh = Inr (fig, r) \<longrightarrow>
           10 \<le> length (snd a)
           \<and> map ax_calls (take 10 (drop 1 (fig_axes fig))) =
               map (\<lambda>k. [Imshow (img ds (fst (ds ! k))), Set_axis_off])
                 (select_examples (snd a) True 10)
           \<and> map ax_calls (drop 11 (fig_axes fig)) =
               map (\<lambda>k. [Imshow (img ds (fst (ds ! k))), Set_axis_off])
                 (select_examples (snd a) False 10))"
proof -
  let ?xs = "snd a"
  have call: "plot_least_or_most_informative_examples pe data s save least n =
       pe data (select_examples ?xs least n) 1 n save"
    using conv by (rule plot_examples_call)
  have ranked: "length (select_examples ?xs least n) = min (nat n) (length ?xs)
     \<and> distinct (select_examples ?xs least n)
     \<and> set (select_examples ?xs least n) \<subseteq> {0..<length ?xs}
     \<and> sorted (map ((!) ?xs) (select_examples ?xs least n))
     \<and> (\<forall>i \<in> set (select_examples ?xs least n). \<forall>j < length ?xs.
           j \<notin> set (select_examples ?xs least n) \<longrightarrow>
           (if least then ?xs ! i \<le> ?xs ! j else ?xs ! j \<le> ?xs ! i))"
  proof (cases least)
    case True
    then have "0 \<le> n" using n by simp
    from select_least_props [OF this, where xs = ?xs] show ?thesis using True by simp
  next
    case False
    then have "1 \<le> n" using n by simp
    from select_most_props [OF this, where xs = ?xs] show ?thesis using False by simp
  qed
  have summ: "10 \<le> length ?xs
           \<and> map ax_calls (take 10 (drop 1 (fig_axes fig))) =
               map (\<lambda>k. [Imshow (img ds (fst (ds ! k))), Set_axis_off])
                 (select_examples ?xs True 10)
           \<and> map ax_calls (drop 11 (fig_axes fig)) =
               map (\<lambda>k. [Imshow (img ds (fst (ds ! k))), Set_axis_off])
                 (select_examples ?xs False 10)"
    if "plot_summary_of_informativeness li img ds s names sv oh = Inr (fig, r)"
  proof -
    have "summary_of_scores li img ds ?xs names sv oh = Inr (fig, r)"
      using that conv by (simp add: plot_summary_of_informativeness_def)
    from summary_rows(1,4,5) [OF this] show ?thesis by simp
  qed
  show ?thesis using call ranked summ by blast
qed

lemma collect_map_total:
  "(\<And>j. j \<in> set js \<Longrightarrow> \<exists>v. f j = Inr v) \<Longrightarrow> \<exists>ys. collect (map f js) = Inr ys"
proof (induction js)
  case Nil
  then show ?case by simp
next
  case (Cons j js)
  then obtain v ys where "f j = Inr v" "collect (map f js) = Inr ys"
    by (metis list.set_intros(1,2))
  then show ?case by simp
qed

lemma mask_select_eq:
  "length gs = length xs \<Longrightarrow> mask_select xs (eq_mask gs g) = Inr (scores_of_group xs gs g)"
proof -
  have "map fst (filter snd (zip xs (map (\<lambda>h. h = g) gs))) =
        map fst (filter (\<lambda>(x, h). h = g) (zip xs gs))"
    by (induction xs gs rule: list_induct2') auto
  then show "length gs = length xs \<Longrightarrow> ?thesis"
    by (simp add: mask_select_def eq_mask_def scores_of_group_def)
qed

lemma class_hists_total:
  assumes "length ys = length xs"
    and "\<And>y. y \<in> set cs \<Longrightarrow>
           \<exists>l. (case names of None \<Rightarrow> Inr (str_int y) | Some ns \<Rightarrow> py_index ns y) = Inr l"
  shows "\<exists>calls :: 'im ax_call list. class_hists xs ys names cs = Inr calls"
  using assms(2)
proof (induction cs)
  case Nil
  then show ?case by simp
next
  case (Cons c cs)
  from Cons.prems [of c] obtain l where
    l: "(case names of None \<Rightarrow> Inr (str_int c) | Some ns \<Rightarrow> py_index ns c) = Inr l" by auto
  from Cons.IH Cons.prems obtain calls :: "'im ax_call list"
    where "class_hists xs ys names cs = Inr calls"
    by auto
  then show ?case using l mask_select_eq [OF assms(1), of c] by simp
qed

lemma example_row_total:
  assumes "length chosen = 10" and "\<And>k. k \<in> set chosen \<Longrightarrow> k < length data"
  shows "\<exists>row. collect (map (example_axes img data chosen r0 r1) [0..<10]) = Inr row"
proof (rule collect_map_total)
  fix j assume "j \<in> set [0..<10]"
  then have j: "j < length chosen" using assms(1) by simp
  then have "chosen ! j < length data" using assms(2) by simp
  then show "\<exists>v. example_axes img data chosen r0 r1 j = Inr v"
    using j by (simp add: example_axes_def nth_err_def split: prod.splits)
qed

lemma summary_total:
  assumes xs: "10 \<le> length xs" and data: "length data = length xs"
    and labels: "\<And>x y. (x, y) \<in> set data \<Longrightarrow> \<exists>k. li oh y = Inr k"
    and names: "names = None"
  shows "\<exists>fig. summary_of_scores li (img :: ('x \<times> 'y) list \<Rightarrow> 'x \<Rightarrow> 'im) data xs names save oh
           = Inr (fig, None)"
proof -
  have "\<exists>ys. collect (map (\<lambda>(x, y). li oh y) data) = Inr ys"
    by (rule collect_map_total) (use labels in auto)
  then obtain ys where ys: "collect (map (\<lambda>(x, y). li oh y) data) = Inr ys" ..
  have "length ys = length xs" using collect_map_Inr [OF ys] data by simp
  then have "\<exists>calls :: 'im ax_call list. class_hists xs ys names (sorted_set ys) = Inr calls"
    by (rule class_hists_total) (simp add: names)
  then obtain calls :: "'im ax_call list"
    where calls: "class_hists xs ys names (sorted_set ys) = Inr calls" ..
  have l: "length (slice_to 10 (argsort xs)) = 10"
    and m: "length (slice_from (- 10) (argsort xs)) = 10"
    using xs by (simp_all add: slice_to_def slice_from_def argsort_length)
  have inl: "k < length data" if "k \<in> set (slice_to 10 (argsort xs))" for k
    using in_set_takeD [of k _ "argsort xs"] that
    by (auto simp: slice_to_def argsort_set data)
  have inm: "k < length data" if "k \<in> set (slice_from (- 10) (argsort xs))" for k
    using in_set_dropD [of k _ "argsort xs"] that
    by (auto simp: slice_from_def argsort_set data)
  obtain top where top: "collect (map (example_axes img data (slice_to 10 (argsort xs)) 1 11) [0..<10]) = Inr top"
    using example_row_total [OF l inl] by blast
  obtain bottom where bottom: "collect (map (example_axes img data (slice_from (- 10) (argsort xs)) 12 22) [0..<10]) = Inr bottom"
    using example_row_total [OF m inm] by blast
  show ?thesis
    unfolding summary_of_scores_def Let_def top bottom by (simp add: ys calls)
qed


theorem examples_ranked_by_score_witness:
  "plot_least_or_most_informative_examples record_examples ()
     (Ndarray ([12], [5, 3, 8, 1, 9, 2, 7, 4, 6, 0, 11, 10])) None True 3 = Inr ([9, 3, 5], 3)
   \<and> plot_least_or_most_informative_examples record_examples ()
     (Ndarray ([12], [5, 3, 8, 1, 9, 2, 7, 4, 6, 0, 11, 10])) None False 3 = Inr ([4, 11, 10], 3)
   \<and> (\<exists>fig. plot_summary_of_informativeness class_index stored_image
          [(10, 0), (11, 1), (12, 0), (13, 1), (14, 0), (15, 1), (16, 0), (17, 1), (18, 0),
           (19 :: nat, 1), (20, 0), (21, 1)]
          (Ndarray ([12], [5, 3, 8, 1, 9, 2, 7, 4, 6, 0, 11, 10])) None None False
          = Inr (fig, None)
        \<and> map ax_calls (take 10 (drop 1 (fig_axes fig))) =
            map (\<lambda>k. [Imshow k, Set_axis_off]) [19, 13, 15, 11, 17, 10, 18, 16, 12, 14]
        \<and> map ax_calls (drop 11 (fig_axes fig)) =
            map (\<lambda>k. [Imshow k, Set_axis_off]) [15, 11, 17, 10, 18, 16, 12, 14, 21, 20])"
proof -
  let ?xs = "[5, 3, 8, 1, 9, 2, 7, 4, 6, 0, 11, 10] :: real list"
  let ?s = "Ndarray ([12], ?xs)"
  let ?ds = "[(10, 0), (11, 1), (12, 0), (13, 1), (14, 0), (15, 1), (16, 0), (17, 1), (18, 0),
              (19 :: nat, 1 :: int), (20, 0), (21, 1)]"
  have conv: "convert_scores_to_numpy ?s = Inr ([12], ?xs)"
    by (simp add: convert_scores_to_numpy_def flatten_def)
  have order: "argsort ?xs = [9, 3, 5, 1, 7, 0, 8, 6, 2, 4, 11, 10]"
    by (simp add: argsort_def upt_conv_Cons)
  have sel3: "select_examples ?xs True 3 = [9, 3, 5]"
    and top3: "select_examples ?xs False 3 = [4, 11, 10]"
    and least: "select_examples ?xs True 10 = [9, 3, 5, 1, 7, 0, 8, 6, 2, 4]"
    and most: "select_examples ?xs False 10 = [5, 1, 7, 0, 8, 6, 2, 4, 11, 10]"
    by (simp_all add: select_examples_def order slice_to_def slice_from_def)
  have "\<exists>fig. summary_of_scores class_index (stored_image :: (nat \<times> int) list \<Rightarrow> nat \<Rightarrow> nat)
          ?ds ?xs None None False = Inr (fig, None)"
    by (rule summary_total) (simp_all add: class_index_def)
  then obtain fig where
    fig: "plot_summary_of_informativeness class_index stored_image ?ds ?s None None False
            = Inr (fig, None)"
    by (auto simp: plot_summary_of_informativeness_def conv)
  have n: "(True \<and> (0::int) \<le> 3) \<or> (\<not> True \<and> (1::int) \<le> 3)" by simp
  have m: "(False \<and> (0::int) \<le> 3) \<or> (\<not> False \<and> (1::int) \<le> 3)" by simp
  from examples_ranked_by_score [OF conv n, where pe = record_examples and data = "()"
      and save = None and li = class_index and img = stored_image and ds = ?ds
      and names = None and sv = None and oh = False and fig = fig and r = None] fig
  have low: "plot_least_or_most_informative_examples record_examples () ?s None True 3
          = Inr ([9, 3, 5], 3)"
    and top_row: "map ax_calls (take 10 (drop 1 (fig_axes fig))) =
            map (\<lambda>k. [Imshow k, Set_axis_off]) [19, 13, 15, 11, 17, 10, 18, 16, 12, 14]"
    and bottom_row: "map ax_calls (drop 11 (fig_axes fig)) =
            map (\<lambda>k. [Imshow k, Set_axis_off]) [15, 11, 17, 10, 18, 16, 12, 14, 21, 20]"
    by (simp_all add: sel3 least most record_examples_def stored_image_def)
  from examples_ranked_by_score [OF conv m, where pe = record_examples and data = "()"
      and save = None, THEN conjunct1]
  have high: "plot_least_or_most_informative_examples record_examples () ?s None False 3
          = Inr ([4, 11, 10], 3)"
    by (simp add: top3 record_examples_def)
  show ?thesis
    by (intro conjI exI [of _ fig]) (rule low high fig top_row bottom_row)+
qed

text \<open>
  C1 as stated fails when there are fewer scores than \<open>n_examples\<close>: with three scores and
  the default \<open>n_examples = 10\<close> the helper receives three indices, not ten.
\<close>

theorem fewer_scores_than_examples_counterexample:
  "plot_least_or_most_informative_examples record_examples ()
     (Ndarray ([3], [3/10, 1/10, 1/5])) None True 10 = Inr ([1, 2, 0], 10)
   \<and> length (select_examples [3/10, 1/10, 1/5] True 10) \<noteq> 10"
  by (simp add: plot_least_or_most_informative_examples_def examples_of_scores_def
      convert_scores_to_numpy_def flatten_def select_examples_def slice_to_def
      record_examples_def argsort_def upt_conv_Cons)

section \<open>The histogram figure\<close>










































section \<open>The store is only read\<close>










section \<open>The claims on an example\<close>


















end
